theory Spec2Isabelle
  imports Main "HOL-Library.Word"
begin

section \<open>Go types, as far as package reflect and package unsafe look at them\<close>

text \<open>
  The package inspects the alternatives of a union with \<^verbatim>\<open>reflect\<close> (their kind, their
  struct fields, their array element) and with \<^verbatim>\<open>unsafe.Sizeof\<close>. A Go type is modelled by
  what these see. The element types of pointers, channels, maps and slices and the
  signature of a function influence neither, so these kinds carry no argument. An
  interface type carries the names of its methods; \<^verbatim>\<open>any\<close> is the interface without methods.
  \<open>IntT\<close> is the type \<^verbatim>\<open>int\<close>.
\<close>

datatype gotype =
    Bool
  | IntT | Int8 | Int16 | Int32 | Int64
  | Uint | Uint8 | Uint16 | Uint32 | Uint64 | Uintptr
  | Float32 | Float64 | Complex64 | Complex128
  | Array nat gotype
  | Chan
  | Func
  | Interface "string list"
  | Map
  | Ptr
  | Slice
  | String
  | Struct "gotype list"
  | UnsafePointer

fun is_Interface :: "gotype \<Rightarrow> bool" where
  "is_Interface (Interface ms) = True"
| "is_Interface t = False"

fun is_Array :: "gotype \<Rightarrow> bool" where
  "is_Array (Array n t) = True"
| "is_Array t = False"

text \<open>
  \<^verbatim>\<open>var x T; reflect.TypeOf(x)\<close>: the dynamic type of the zero value of \<open>T\<close>, converted to
  \<^verbatim>\<open>any\<close>. The zero value of an interface type is the nil interface, for which
  \<^verbatim>\<open>reflect.TypeOf\<close> returns the nil \<^verbatim>\<open>reflect.Type\<close>.
\<close>

definition TypeOf_zero :: "gotype \<Rightarrow> gotype option" where
  "TypeOf_zero t = (if is_Interface t then None else Some t)"

subsection \<open>hasPointers\<close>

text \<open>
  \<^verbatim>\<open>
  func hasPointers(value reflect.Type) bool {
      switch value.Kind() {
      case reflect.Ptr, reflect.Chan, reflect.Map, reflect.Interface, reflect.Slice,
           reflect.Func, reflect.UnsafePointer:
          return true
      case reflect.Struct:
          for i := 0; i < value.NumField(); i++ {
              if hasPointers(value.Field(i).Type) { return true }
          }
      case reflect.Array:
          return hasPointers(value.Elem())
      }
      return false
  }
  \<close>
  The loop over the struct fields is \<open>hasPointers_fields\<close>. Strings are not in the list.
\<close>

fun hasPointers :: "gotype \<Rightarrow> bool"
  and hasPointers_fields :: "gotype list \<Rightarrow> bool" where
  "hasPointers Ptr = True"
| "hasPointers Chan = True"
| "hasPointers Map = True"
| "hasPointers (Interface ms) = True"
| "hasPointers Slice = True"
| "hasPointers Func = True"
| "hasPointers UnsafePointer = True"
| "hasPointers (Struct fs) = hasPointers_fields fs"
| "hasPointers (Array n t) = hasPointers t"
| "hasPointers t = False"
| "hasPointers_fields [] = False"
| "hasPointers_fields (f # fs) = (if hasPointers f then True else hasPointers_fields fs)"

subsection \<open>Sizes, alignments and field offsets\<close>

text \<open>
  \<^verbatim>\<open>unsafe.Sizeof\<close>, \<^verbatim>\<open>unsafe.Alignof\<close> and \<^verbatim>\<open>unsafe.Offsetof\<close> of the Go compiler on a 64-bit
  platform (words and pointers of 8 bytes). The fields of a struct are laid out in order,
  each at the next multiple of its alignment; a struct of nonzero size that ends in a field
  of size zero gets one more byte; the size is rounded up to the alignment of the struct.
\<close>

definition align_up :: "nat \<Rightarrow> nat \<Rightarrow> nat" where
  "align_up n a = ((n + a - 1) div a) * a"

fun alignof :: "gotype \<Rightarrow> nat"
  and alignof_fields :: "gotype list \<Rightarrow> nat" where
  "alignof Bool = 1"
| "alignof IntT = 8"
| "alignof Int8 = 1"
| "alignof Int16 = 2"
| "alignof Int32 = 4"
| "alignof Int64 = 8"
| "alignof Uint = 8"
| "alignof Uint8 = 1"
| "alignof Uint16 = 2"
| "alignof Uint32 = 4"
| "alignof Uint64 = 8"
| "alignof Uintptr = 8"
| "alignof Float32 = 4"
| "alignof Float64 = 8"
| "alignof Complex64 = 4"
| "alignof Complex128 = 8"
| "alignof (Array n t) = alignof t"
| "alignof Chan = 8"
| "alignof Func = 8"
| "alignof (Interface ms) = 8"
| "alignof Map = 8"
| "alignof Ptr = 8"
| "alignof Slice = 8"
| "alignof String = 8"
| "alignof (Struct fs) = alignof_fields fs"
| "alignof UnsafePointer = 8"
| "alignof_fields [] = 1"
| "alignof_fields (f # fs) = max (alignof f) (alignof_fields fs)"

text \<open>
  \<open>struct_end o z fs\<close> lays the fields \<open>fs\<close> out from offset \<open>o\<close>; it returns the offset after
  the last field and the offset after the last field of size zero (\<open>z\<close> when there is none).
\<close>

fun sizeof :: "gotype \<Rightarrow> nat"
  and struct_end :: "nat \<Rightarrow> nat \<Rightarrow> gotype list \<Rightarrow> nat \<times> nat" where
  "sizeof Bool = 1"
| "sizeof IntT = 8"
| "sizeof Int8 = 1"
| "sizeof Int16 = 2"
| "sizeof Int32 = 4"
| "sizeof Int64 = 8"
| "sizeof Uint = 8"
| "sizeof Uint8 = 1"
| "sizeof Uint16 = 2"
| "sizeof Uint32 = 4"
| "sizeof Uint64 = 8"
| "sizeof Uintptr = 8"
| "sizeof Float32 = 4"
| "sizeof Float64 = 8"
| "sizeof Complex64 = 8"
| "sizeof Complex128 = 16"
| "sizeof (Array n t) = n * sizeof t"
| "sizeof Chan = 8"
| "sizeof Func = 8"
| "sizeof (Interface ms) = 16"
| "sizeof Map = 8"
| "sizeof Ptr = 8"
| "sizeof Slice = 24"
| "sizeof String = 16"
| "sizeof (Struct fs) =
     (case struct_end 0 0 fs of (e, z) \<Rightarrow>
        align_up (if 0 < e \<and> e = z then e + 1 else e) (alignof_fields fs))"
| "sizeof UnsafePointer = 8"
| "struct_end e z [] = (e, z)"
| "struct_end e z (f # fs) =
     (let e' = align_up e (alignof f) + sizeof f
      in struct_end e' (if sizeof f = 0 then e' else z) fs)"

text \<open>\<^verbatim>\<open>unsafe.Offsetof\<close>: the offset of field number \<open>i\<close> of a struct with the fields \<open>fs\<close>.\<close>

fun offsetof :: "nat \<Rightarrow> gotype list \<Rightarrow> nat \<Rightarrow> nat" where
  "offsetof e [] i = e"
| "offsetof e (f # fs) 0 = align_up e (alignof f)"
| "offsetof e (f # fs) (Suc i) = offsetof (align_up e (alignof f) + sizeof f) fs i"

subsection \<open>The buffer of a union and the layout of a union value\<close>

text \<open>
  \<^verbatim>\<open>type buffer interface { any | [4]byte | [8]byte | ... | [1024]byte }\<close>: the constraint names
  \<^verbatim>\<open>any\<close> and arrays of bytes, and with the term \<^verbatim>\<open>any\<close> every type is in its type set. The
  buffer of a union is therefore any \<open>gotype\<close>: \<open>Interface []\<close> is \<^verbatim>\<open>any\<close>, \<open>Array n Uint8\<close> is
  \<^verbatim>\<open>[n]byte\<close>, and \<open>Int64\<close> or \<open>Array 2 Int64\<close> are buffers as well.
\<close>

text \<open>
  \<^verbatim>\<open>type UnionMethods[Buf any, Values any] struct { tag int16; any bool; buf Buf }\<close> as a Go
  type, the union type \<^verbatim>\<open>struct { UnionMethods[Buf, Values] }\<close> around it, and
  \<^verbatim>\<open>unsafe.Offsetof(union.buf)\<close>.
\<close>

definition UnionMethods_type :: "gotype \<Rightarrow> gotype" where
  "UnionMethods_type b = Struct [Int16, Bool, b]"

definition Union_type :: "gotype \<Rightarrow> gotype" where
  "Union_type b = Struct [UnionMethods_type b]"

definition offsetof_buf :: "gotype \<Rightarrow> nat" where
  "offsetof_buf b = offsetof 0 [Int16, Bool, b] 2"

text \<open>
  The number of bytes of a union value after \<^verbatim>\<open>tag\<close> and \<^verbatim>\<open>any\<close>, from offset 3 to the end of
  the buffer: the padding before the buffer, if the buffer is aligned, and the buffer.
\<close>

definition rest_len :: "gotype \<Rightarrow> nat" where
  "rest_len b = offsetof_buf b + sizeof b - 3"

section \<open>Union values\<close>

text \<open>
  A value of a type without interfaces is the bytes of its representation. A value of an
  interface type is nil or a dynamic type with a value of that type. None of the types
  modelled here has methods, so a dynamic type implements only the interface without methods.
\<close>

type_synonym byte = "8 word"

type_synonym dynamic = "(gotype \<times> byte list) option"

datatype govalue = Raw "byte list" | Ifc dynamic

fun has_type :: "gotype \<Rightarrow> govalue \<Rightarrow> bool" where
  "has_type ty (Raw bs) = (\<not> is_Interface ty \<and> length bs = sizeof ty)"
| "has_type ty (Ifc None) = is_Interface ty"
| "has_type ty (Ifc (Some (dt, bs))) =
     (ty = Interface [] \<and> \<not> is_Interface dt \<and> length bs = sizeof dt)"

text \<open>\<^verbatim>\<open>var zero Value\<close>\<close>

definition zero :: "gotype \<Rightarrow> govalue" where
  "zero ty = (if is_Interface ty then Ifc None else Raw (replicate (sizeof ty) 0))"

text \<open>
  The union value \<^verbatim>\<open>struct { tag int16; any bool; buf Buf }\<close>. The fields \<^verbatim>\<open>tag\<close> and \<^verbatim>\<open>any\<close>
  are \<open>union_tag\<close> and \<open>union_any\<close> here. What follows them is
  \<^item> \<open>Boxed d\<close> when \<open>Buf\<close> is \<^verbatim>\<open>any\<close>: the interface value \<open>d\<close>;
  \<^item> \<open>Inline bs\<close> when \<open>Buf\<close> is no interface type: the bytes of the union value from offset 3
    to the end of the buffer (for a byte array, the buffer itself);
  \<^item> \<open>Words d k\<close> when \<open>Buf\<close> is no interface type and the union value was copied out of a
    variable of type \<^verbatim>\<open>UnionMethods[any, struct{}]\<close> that held the interface value \<open>d\<close>: the \<open>k\<close>
    bytes from offset 3 to the end of the buffer are those of the variable, which has
    padding up to offset 8 and the two pointers of \<open>d\<close> from offset 8 to 24. The pointers
    are addresses, which the model does not know; they are complete when \<open>21 \<le> k\<close>.
\<close>

datatype storage = Inline "byte list" | Boxed dynamic | Words dynamic nat

record UnionMethods =
  union_tag :: "16 word"
  union_any :: bool
  buf :: storage

definition zero_storage :: "gotype \<Rightarrow> storage" where
  "zero_storage b = (if is_Interface b then Boxed None else Inline (replicate (rest_len b) 0))"

definition zero_Union :: "gotype \<Rightarrow> UnionMethods" where
  "zero_Union b = \<lparr>union_tag = 0, union_any = False, buf = zero_storage b\<rparr>"

text \<open>
  The union values of a union type with the buffer \<open>b\<close>. Only \<^verbatim>\<open>New\<close> with a boxed descriptor
  makes a \<open>Words\<close> value, and a union type with an array as buffer has no such descriptor.
\<close>

definition valid_Union :: "gotype \<Rightarrow> UnionMethods \<Rightarrow> bool" where
  "valid_Union b u =
     (case buf u of
        Boxed d \<Rightarrow> is_Interface b
      | Inline bs \<Rightarrow> \<not> is_Interface b \<and> length bs = rest_len b
      | Words d k \<Rightarrow> \<not> is_Interface b \<and> \<not> is_Array b \<and> k = rest_len b)"

subsection \<open>Memory seen through unsafe pointers\<close>

text \<open>
  \<^verbatim>\<open>New\<close> and \<^verbatim>\<open>Lookup\<close> read and write a variable of one struct type through a pointer to
  another one. Memory is a function from the offsets from the address of the variable to
  bytes (little-endian): first the bytes of the variable, then whatever memory follows
  it, which is a parameter (\<open>beyond\<close>, indexed from the end of the variable). A read or a
  write that runs past the end of the variable reads or changes the memory after it. What
  such a write does to the rest of the program is not modelled.
\<close>

type_synonym memory = "nat \<Rightarrow> byte"

definition zero_memory :: memory where
  "zero_memory i = 0"

definition flat :: "byte list \<Rightarrow> memory \<Rightarrow> memory" where
  "flat var beyond i = (if i < length var then var ! i else beyond (i - length var))"

definition store :: "memory \<Rightarrow> nat \<Rightarrow> byte list \<Rightarrow> memory" where
  "store mem off bs i = (if off \<le> i \<and> i < off + length bs then bs ! (i - off) else mem i)"

definition fetch :: "memory \<Rightarrow> nat \<Rightarrow> nat \<Rightarrow> byte list" where
  "fetch mem off n = map mem [off ..< off + n]"

definition peek :: "byte list \<Rightarrow> memory \<Rightarrow> nat \<Rightarrow> nat \<Rightarrow> byte list" where
  "peek var beyond off n = fetch (flat var beyond) off n"

definition le16 :: "16 word \<Rightarrow> byte list" where
  "le16 w = [word_of_nat (unat w mod 256), word_of_nat (unat w div 256)]"

definition rd16 :: "byte list \<Rightarrow> 16 word" where
  "rd16 bs = word_of_nat (unat (bs ! 0) + 256 * unat (bs ! 1))"

definition bool_byte :: "bool \<Rightarrow> byte" where
  "bool_byte b = (if b then 1 else 0)"

text \<open>The bytes of a union value \<open>u\<close> with \<open>buf u = Inline bs\<close>, up to the end of its buffer.\<close>

definition union_bytes :: "UnionMethods \<Rightarrow> byte list \<Rightarrow> byte list" where
  "union_bytes u bs = le16 (union_tag u) @ [bool_byte (union_any u)] @ bs"

text \<open>
  \<^verbatim>\<open>*(*Union)(unsafe.Pointer(&union))\<close> for a union type whose buffer \<open>b\<close> is no interface type:
  the union value is read from the memory at the address of the variable.
\<close>

definition as_Union :: "gotype \<Rightarrow> memory \<Rightarrow> UnionMethods" where
  "as_Union b mem =
     \<lparr>union_tag = rd16 (fetch mem 0 2),
      union_any = (fetch mem 2 1 \<noteq> [0]),
      buf = Inline (fetch mem 3 (rest_len b))\<rparr>"

section \<open>Field descriptors and their derivation\<close>

text \<open>
  \<^verbatim>\<open>type Field[Union any] struct { _ *[0]Union; tag int16; set uintptr; any bool }\<close>. The blank
  field is always nil. The field \<^verbatim>\<open>set\<close> is \<open>set_offset\<close> here; it holds small offsets only,
  so it is a natural number. \<^verbatim>\<open>As[Union, Value]\<close> embeds a \<open>Field\<close> and nothing else: an
  accessor is a \<open>Field\<close>, and its type argument \<open>Value\<close> is passed along as a \<open>gotype\<close>.
\<close>

record Field =
  tag :: "16 word"
  set_offset :: nat
  any :: bool

definition zero_Field :: Field where
  "zero_Field = \<lparr>tag = 0, set_offset = 0, any = False\<rparr>"

datatype panic =
    NotInitialized
  | WrongTag
  | ContainsPointers
  | BufferTooSmall
  | TooManyFields
  | NilDereference
  | TypeAssertion

text \<open>
  The text of each panic. The messages of \<^verbatim>\<open>load\<close> and \<^verbatim>\<open>values\<close> are given unformatted, and
  of the two panics of the run-time system only the fixed part is given.
\<close>

fun message :: "panic \<Rightarrow> string" where
  "message NotInitialized = ''tagged.Field must be initialized before use''"
| "message WrongTag = ''tagged.Field.Get called with wrong tag''"
| "message ContainsPointers = ''cannot load %T into [%d]byte %T, contains pointers''"
| "message BufferTooSmall = ''cannot load %T into [%d]byte %T, buffer too small''"
| "message TooManyFields = ''too many fields in %T''"
| "message NilDereference = ''invalid memory address or nil pointer dereference''"
| "message TypeAssertion = ''interface conversion''"

text \<open>
  \<^verbatim>\<open>
  func (field *As[Union, Value]) load(tag int16, direct bool, buf, offset uintptr) {
      var union Union
      var value Value
      if hasPointers(reflect.TypeOf(value)) && direct { panic(... contains pointers) }
      if direct && unsafe.Sizeof(value) > buf { panic(... buffer too small) }
      field.tag = tag
      field.set = offset
      field.any = !direct
  }
  \<close>
  \<^verbatim>\<open>hasPointers\<close> starts with \<^verbatim>\<open>value.Kind()\<close>, a method call on the nil interface when
  \<open>Value\<close> is an interface type.
\<close>

definition load :: "gotype \<Rightarrow> Field \<Rightarrow> 16 word \<Rightarrow> bool \<Rightarrow> nat \<Rightarrow> nat \<Rightarrow> panic + Field" where
  "load Value field t direct b offset =
     (case TypeOf_zero Value of
        None \<Rightarrow> Inl NilDereference
      | Some ty \<Rightarrow>
          if hasPointers ty \<and> direct then Inl ContainsPointers
          else if direct \<and> sizeof Value > b then Inl BufferTooSmall
          else Inr (field\<lparr>tag := t, set_offset := offset, any := \<not> direct\<rparr>))"

text \<open>
  \<^verbatim>\<open>
  func (union UnionMethods[Buf, Values]) values() Values {
      var buffer Buf
      var values Values
      var rvalue = reflect.ValueOf(&values).Elem()
      var direct = reflect.TypeOf(buffer).Kind() == reflect.Array
      for i := 0; i < rvalue.NumField(); i++ {
          if i > math.MaxInt32 { panic(... too many fields) }
          rvalue.Field(i).Addr().Interface().(loadable).load(int16(i), direct,
              unsafe.Sizeof(buffer), unsafe.Offsetof(union.buf))
      }
      return values
  }
  \<close>
  \<open>Values\<close> is the list of the value types of the fields \<^verbatim>\<open>As[Union, Value]\<close> of the struct, in
  the order of their declaration. Every field of the fresh \<^verbatim>\<open>values\<close> is the zero \<open>Field\<close>
  when \<^verbatim>\<open>load\<close> reaches it. \<open>values_loop\<close> is the loop from index \<open>i\<close> on; \<^verbatim>\<open>int16(i)\<close>
  keeps the low 16 bits of \<open>i\<close>. The receiver \<open>u\<close> is the value given to \<^verbatim>\<open>Fields\<close>; only
  its type is used.
\<close>

definition MaxInt32 :: nat where
  "MaxInt32 = 2147483647"

fun values_loop :: "gotype \<Rightarrow> bool \<Rightarrow> nat \<Rightarrow> gotype list \<Rightarrow> panic + Field list" where
  "values_loop B direct i [] = Inr []"
| "values_loop B direct i (Value # Values) =
     (if i > MaxInt32 then Inl TooManyFields
      else case load Value zero_Field (word_of_nat i) direct
                  (sizeof B) (offsetof_buf B) of
             Inl e \<Rightarrow> Inl e
           | Inr field \<Rightarrow>
               (case values_loop B direct (Suc i) Values of
                  Inl e \<Rightarrow> Inl e
                | Inr fs \<Rightarrow> Inr (field # fs)))"

definition "values" :: "gotype \<Rightarrow> gotype list \<Rightarrow> UnionMethods \<Rightarrow> panic + Field list" where
  "values B Values u =
     (case TypeOf_zero B of
        None \<Rightarrow> Inl NilDereference
      | Some ty \<Rightarrow> values_loop B (is_Array ty) 0 Values)"

text \<open>\<^verbatim>\<open>func Fields(union Union) Values { return union.values() }\<close>\<close>

definition Fields :: "gotype \<Rightarrow> gotype list \<Rightarrow> UnionMethods \<Rightarrow> panic + Field list" where
  "Fields B Values u = values B Values u"

section \<open>The accessors\<close>

text \<open>
  Where the bytes of a buffer would be taken for the pointers of an interface value, or
  the pointers of an interface value for the bytes of a \<open>Value\<close>, or where the pointers of an
  interface value have been cut off, the Go program has no defined result. The model
  returns \<open>Undefined\<close> there; every other failure is a panic. The garbage collector is not
  modelled.
\<close>

datatype fault = Panic panic | Undefined

text \<open>\<^verbatim>\<open>union.buf = value\<close>, the conversion of a \<open>Value\<close> to \<^verbatim>\<open>any\<close>.\<close>

fun to_any :: "gotype \<Rightarrow> govalue \<Rightarrow> dynamic" where
  "to_any ty (Raw bs) = Some (ty, bs)"
| "to_any ty (Ifc d) = d"

text \<open>\<^verbatim>\<open>typed.buf.(Value)\<close>; \<open>None\<close> is the panic of a failed type assertion.\<close>

fun type_assert :: "gotype \<Rightarrow> dynamic \<Rightarrow> govalue option" where
  "type_assert ty None = None"
| "type_assert (Interface ms) (Some (dt, bs)) = (if ms = [] then Some (Ifc (Some (dt, bs))) else None)"
| "type_assert ty (Some (dt, bs)) = (if dt = ty then Some (Raw bs) else None)"

text \<open>
  \<^verbatim>\<open>
  func (f As[Union, Value]) New(value Value) Union {
      if f.set == 0 { panic("tagged.Field must be initialized before use") }
      if f.any {
          var union UnionMethods[any, struct{}]
          union.tag = f.tag
          union.buf = value
          union.any = true
          return *(*Union)(unsafe.Pointer(&union))
      }
      var union UnionMethods[Value, Value]
      union.tag = f.tag
      *(*Value)(unsafe.Add(unsafe.Pointer(&union), f.set)) = value
      return *(*Union)(unsafe.Pointer(&union))
  }
  \<close>
  \<open>B\<close> is the buffer of \<open>Union\<close>, and \<open>beyond\<close> the memory after the local variable. The
  variable \<^verbatim>\<open>UnionMethods[any, struct{}]\<close> has \<^verbatim>\<open>tag\<close> and \<^verbatim>\<open>any\<close> at the offsets 0 and 2, as every
  union value has; a union type whose buffer is another interface type than \<^verbatim>\<open>any\<close> would
  take the two pointers for those of its own interface type.
\<close>

definition New :: "gotype \<Rightarrow> gotype \<Rightarrow> Field \<Rightarrow> govalue \<Rightarrow> memory \<Rightarrow> fault + UnionMethods" where
  "New B Value f v beyond =
     (if set_offset f = 0 then Inl (Panic NotInitialized)
      else if any f then
        (if B = Interface [] then
           Inr \<lparr>union_tag = tag f, union_any = True, buf = Boxed (to_any Value v)\<rparr>
         else if is_Interface B then Inl Undefined
         else Inr \<lparr>union_tag = tag f, union_any = True,
                   buf = Words (to_any Value v) (rest_len B)\<rparr>)
      else
        (case v of
           Ifc d \<Rightarrow> Inl Undefined
         | Raw bs \<Rightarrow>
             (let var = replicate (sizeof (UnionMethods_type Value)) 0;
                  mem = store (store (flat var beyond) 0 (le16 (tag f))) (set_offset f) bs
              in if is_Interface B then Inl Undefined else Inr (as_Union B mem))))"

text \<open>
  \<^verbatim>\<open>
  func (f As[Union, Value]) Lookup(union Union) (Value, bool) {
      if f.set == 0 { panic("tagged.Field must be initialized before use") }
      var zero Value
      if f.any {
          var typed = *(*UnionMethods[any, struct{}])(reflect.ValueOf(&union).UnsafePointer())
          if typed.tag != f.tag { return zero, false }
          return typed.buf.(Value), true
      }
      var typed = *(*UnionMethods[Value, struct{}])(reflect.ValueOf(&union).UnsafePointer())
      if typed.tag != f.tag { return zero, false }
      return *(*Value)(unsafe.Add(unsafe.Pointer(&union), f.set)), true
  }
  \<close>
  The field \<^verbatim>\<open>tag\<close> is at offset 0 in every one of these struct types. \<open>beyond\<close> is the
  memory after the buffer of \<open>union\<close>. With a boxed descriptor, \<^verbatim>\<open>typed.buf\<close> is the 16 bytes of
  \<open>union\<close> from offset 8 on.
\<close>

definition Lookup :: "gotype \<Rightarrow> Field \<Rightarrow> UnionMethods \<Rightarrow> memory \<Rightarrow> fault + govalue \<times> bool" where
  "Lookup Value f u beyond =
     (if set_offset f = 0 then Inl (Panic NotInitialized)
      else if any f then
        (if union_tag u \<noteq> tag f then Inr (zero Value, False)
         else (case buf u of
                 Boxed d \<Rightarrow>
                   (case type_assert Value d of
                      None \<Rightarrow> Inl (Panic TypeAssertion)
                    | Some x \<Rightarrow> Inr (x, True))
               | Words d k \<Rightarrow>
                   if k < 21 then Inl Undefined
                   else (case type_assert Value d of
                           None \<Rightarrow> Inl (Panic TypeAssertion)
                         | Some x \<Rightarrow> Inr (x, True))
               | Inline bs \<Rightarrow> Inl Undefined))
      else
        (if union_tag u \<noteq> tag f then Inr (zero Value, False)
         else (case buf u of
                 Boxed d \<Rightarrow> Inl Undefined
               | Words d k \<Rightarrow> Inl Undefined
               | Inline bs \<Rightarrow>
                   if is_Interface Value then Inl Undefined
                   else Inr (Raw (peek (union_bytes u bs) beyond (set_offset f) (sizeof Value)), True))))"

text \<open>
  \<^verbatim>\<open>
  func (f As[Union, Value]) Get(union Union) Value {
      value, ok := f.Lookup(union)
      if !ok { panic("tagged.Field.Get called with wrong tag") }
      return value
  }
  \<close>
\<close>

definition Get :: "gotype \<Rightarrow> Field \<Rightarrow> UnionMethods \<Rightarrow> memory \<Rightarrow> fault + govalue" where
  "Get Value f u beyond =
     (case Lookup Value f u beyond of
        Inl e \<Rightarrow> Inl e
      | Inr (v, ok) \<Rightarrow> if \<not> ok then Inl (Panic WrongTag) else Inr v)"

text \<open>
  \<^verbatim>\<open>
  func (union UnionMethods[Buf, Values]) getTag() Field[struct{}] {
      return Field[struct{}]{ tag: union.tag, set: unsafe.Offsetof(union.buf), any: union.any }
  }
  func FieldOf(union Union) Field[Union] {
      tag := union.getTag()
      return Field[Union]{ tag: tag.tag, set: tag.set, any: tag.any }
  }
  \<close>
\<close>

definition getTag :: "gotype \<Rightarrow> UnionMethods \<Rightarrow> Field" where
  "getTag B u =
     \<lparr>tag = union_tag u, set_offset = offsetof_buf B, any = union_any u\<rparr>"

definition FieldOf :: "gotype \<Rightarrow> UnionMethods \<Rightarrow> Field" where
  "FieldOf B u = (let t = getTag B u in \<lparr>tag = tag t, set_offset = set_offset t, any = any t\<rparr>)"

section \<open>Notions of the specification\<close>

text \<open>
  A type transitively contains a pointer-like field when it is a pointer, a channel, a map,
  an interface, a slice, a function or an unsafe pointer, or a struct with such a field, or
  an array of such elements.
\<close>

fun pointer_like :: "gotype \<Rightarrow> bool" where
  "pointer_like Ptr = True"
| "pointer_like Chan = True"
| "pointer_like Map = True"
| "pointer_like (Interface ms) = True"
| "pointer_like Slice = True"
| "pointer_like Func = True"
| "pointer_like UnsafePointer = True"
| "pointer_like t = False"

inductive contains_pointer_like :: "gotype \<Rightarrow> bool" where
  itself: "pointer_like t \<Longrightarrow> contains_pointer_like t"
| in_struct: "f \<in> set fs \<Longrightarrow> contains_pointer_like f \<Longrightarrow> contains_pointer_like (Struct fs)"
| in_array: "contains_pointer_like t \<Longrightarrow> contains_pointer_like (Array n t)"

code_pred contains_pointer_like .

text \<open>
  The descriptor that a derivation with a buffer \<open>B\<close> gives to alternative number \<open>k\<close>:
  the tag is \<open>k\<close> in 16 bits, the offset is that of the buffer in the union value, and the
  storage is boxed unless the buffer is an array.
\<close>

definition derived :: "gotype \<Rightarrow> nat \<Rightarrow> Field" where
  "derived B k = \<lparr>tag = word_of_nat k, set_offset = offsetof_buf B, any = \<not> is_Array B\<rparr>"

text \<open>
  What \<^verbatim>\<open>load\<close> checks of an alternative \<open>V\<close> of a union with the buffer \<open>B\<close>: \<open>V\<close> is not an
  interface type, and when the buffer is an array, \<open>V\<close> has no pointers and fits the buffer.
\<close>

definition loadable :: "gotype \<Rightarrow> gotype \<Rightarrow> bool" where
  "loadable B V =
     (\<not> is_Interface V \<and> (is_Array B \<longrightarrow> \<not> hasPointers V \<and> sizeof V \<le> sizeof B))"

section \<open>Layout\<close>

text \<open>
  The buffer of a union value starts at offset 3 or later, and after 3 bytes a variable of
  type \<^verbatim>\<open>UnionMethods[Value, Value]\<close> has room for a \<open>Value\<close>. It can be shorter than the
  union value that \<^verbatim>\<open>New\<close> reads from it.
\<close>

lemma alignof_pos: "0 < alignof t" and alignof_fields_pos: "0 < alignof_fields fs"
  by (induction t and fs rule: alignof_alignof_fields.induct) auto

lemma align_up_ge: "0 < a \<Longrightarrow> n \<le> align_up n a"
proof -
  assume a: "0 < a"
  have "n + a - 1 = (n + a - 1) div a * a + (n + a - 1) mod a" by simp
  moreover have "(n + a - 1) mod a < a" using a by simp
  ultimately have "n + a - 1 < (n + a - 1) div a * a + a" by linarith
  then show ?thesis using a by (simp add: align_up_def)
qed

lemma offsetof_buf_eq: "offsetof_buf b = align_up 3 (alignof b)"
  by (simp add: offsetof_buf_def numeral_2_eq_2 align_up_def)

lemma offsetof_buf_ge: "3 \<le> offsetof_buf b"
  by (simp add: offsetof_buf_eq align_up_ge alignof_pos)

lemma offsetof_buf_bytes: "offsetof_buf (Array n Uint8) = 3"
  by (simp add: offsetof_buf_eq align_up_def)

lemma sizeof_bytes: "sizeof (Array n Uint8) = n"
  by simp

lemma rest_len_bytes: "rest_len (Array n Uint8) = n"
  by (simp add: rest_len_def offsetof_buf_bytes)

lemma rest_len_ge: "offsetof_buf b - 3 + sizeof b = rest_len b"
  using offsetof_buf_ge [of b] by (simp add: rest_len_def)

lemma sizeof_UnionMethods_ge: "3 + sizeof V \<le> sizeof (UnionMethods_type V)"
proof -
  define e where "e = align_up 3 (alignof V) + sizeof V"
  define x where "x = (if 0 < e \<and> sizeof V = 0 then e + 1 else e)"
  define a where "a = alignof_fields [Int16, Bool, V]"
  have "3 \<le> align_up 3 (alignof V)" by (rule align_up_ge [OF alignof_pos])
  then have e: "3 + sizeof V \<le> e" by (simp add: e_def)
  have se: "struct_end 0 0 [Int16, Bool, V] = (e, if sizeof V = 0 then e else 0)"
    by (simp add: align_up_def Let_def e_def)
  have "0 < e" using e by simp
  then have sz: "sizeof (UnionMethods_type V) = align_up x a"
    unfolding UnionMethods_type_def sizeof.simps se a_def x_def by simp
  have "e \<le> x" by (simp add: x_def)
  also have "x \<le> align_up x a" unfolding a_def by (rule align_up_ge [OF alignof_fields_pos])
  finally show ?thesis using e sz by simp
qed

lemma local_variable_shorter:
  "sizeof (UnionMethods_type Float32) = 8 \<and> sizeof (Union_type (Array 8 Uint8)) = 12"
  by code_simp

section \<open>The kinds that hasPointers rejects\<close>

text \<open>\<^verbatim>\<open>hasPointers\<close> holds of the types that transitively contain a pointer-like field.\<close>

lemma hasPointers_fields_iff: "hasPointers_fields fs \<longleftrightarrow> (\<exists>f\<in>set fs. hasPointers f)"
  by (induction fs) auto

lemma pointer_like_hasPointers: "pointer_like t \<Longrightarrow> hasPointers t"
  by (cases t) auto

lemma contains_pointer_like_hasPointers: "contains_pointer_like t \<Longrightarrow> hasPointers t"
  by (induction rule: contains_pointer_like.induct)
     (auto simp: pointer_like_hasPointers hasPointers_fields_iff)

lemma hasPointers_contains_pointer_like:
  "hasPointers t \<Longrightarrow> contains_pointer_like t"
  "hasPointers_fields fs \<Longrightarrow> \<exists>f\<in>set fs. contains_pointer_like f"
  by (induction t and fs rule: hasPointers_hasPointers_fields.induct)
     (auto intro: contains_pointer_like.intros split: if_splits)

lemma hasPointers_iff: "hasPointers t \<longleftrightarrow> contains_pointer_like t"
  using contains_pointer_like_hasPointers hasPointers_contains_pointer_like(1) by blast

section \<open>When a derivation succeeds, and what it returns\<close>

text \<open>
  \<^verbatim>\<open>Fields\<close> returns exactly when the buffer is no interface type, every alternative is
  loadable and there are at most \<open>MaxInt32 + 1\<close> alternatives; alternative \<open>k\<close> then gets the
  descriptor \<open>derived B k\<close>: inline when the buffer is an array, boxed otherwise.
\<close>

lemma load_Inr:
  "load V fld t d b off = Inr f \<longleftrightarrow>
     \<not> is_Interface V \<and> (d \<longrightarrow> \<not> hasPointers V \<and> sizeof V \<le> b) \<and>
     f = fld\<lparr>tag := t, set_offset := off, any := \<not> d\<rparr>"
  by (auto simp: load_def TypeOf_zero_def)

lemma Field_overwritten:
  "(fld :: Field)\<lparr>tag := t, set_offset := off, any := a\<rparr> = \<lparr>tag = t, set_offset = off, any = a\<rparr>"
  by (cases fld) simp

lemma load_overwrites: "load V fld t d b off = load V fld' t d b off"
  unfolding load_def Field_overwritten ..

lemma load_derived:
  "load V zero_Field (word_of_nat i) (is_Array B) (sizeof B) (offsetof_buf B) = Inr f \<longleftrightarrow>
     loadable B V \<and> f = derived B i"
  by (auto simp: load_Inr loadable_def derived_def zero_Field_def)

lemma values_loop_Cons_Inr:
  "values_loop B d i (V # Vs) = Inr fs \<longleftrightarrow>
     i \<le> MaxInt32 \<and>
     (\<exists>f fs'. load V zero_Field (word_of_nat i) d (sizeof B) (offsetof_buf B) = Inr f \<and>
              values_loop B d (Suc i) Vs = Inr fs' \<and> fs = f # fs')"
  by (auto split: sum.splits)

lemma values_loop_Inr:
  "values_loop B (is_Array B) i Vs = Inr fs \<longleftrightarrow>
     (\<forall>V\<in>set Vs. loadable B V) \<and> (Vs \<noteq> [] \<longrightarrow> i + length Vs \<le> Suc MaxInt32) \<and>
     fs = map (derived B) [i ..< i + length Vs]"
proof (induction Vs arbitrary: i fs)
  case Nil
  show ?case by auto
next
  case (Cons V Vs)
  have upt: "[i ..< i + length (V # Vs)] = i # [Suc i ..< Suc i + length Vs]"
    by (subst upt_rec) simp
  have bound: "i \<le> MaxInt32 \<and> (Vs \<noteq> [] \<longrightarrow> Suc i + length Vs \<le> Suc MaxInt32) \<longleftrightarrow>
               i + length (V # Vs) \<le> Suc MaxInt32"
    by (cases Vs) auto
  show ?case
    unfolding values_loop_Cons_Inr load_derived Cons.IH upt
    using bound by auto
qed

lemma Fields_Inr:
  "Fields B Vs u = Inr fs \<longleftrightarrow>
     \<not> is_Interface B \<and> (\<forall>V\<in>set Vs. loadable B V) \<and> length Vs \<le> Suc MaxInt32 \<and>
     fs = map (derived B) [0 ..< length Vs]"
proof (cases "is_Interface B")
  case True
  then show ?thesis by (simp add: Fields_def values_def TypeOf_zero_def)
next
  case False
  have "values_loop B (is_Array B) 0 Vs = Inr fs \<longleftrightarrow>
     (\<forall>V\<in>set Vs. loadable B V) \<and> length Vs \<le> Suc MaxInt32 \<and>
     fs = map (derived B) [0 ..< length Vs]"
    using values_loop_Inr [of B 0 Vs fs] by (cases Vs) (auto simp: MaxInt32_def)
  then show ?thesis using False by (simp add: Fields_def values_def TypeOf_zero_def)
qed

lemma derived_bytes:
  "derived (Array n Uint8) k = \<lparr>tag = word_of_nat k, set_offset = 3, any = False\<rparr>"
  by (simp add: derived_def offsetof_buf_bytes)

lemma loadable_bytes:
  "loadable (Array n Uint8) V \<longleftrightarrow> \<not> is_Interface V \<and> \<not> hasPointers V \<and> sizeof V \<le> n"
  by (simp add: loadable_def)

lemma Fields_nth:
  assumes "Fields B Vs u = Inr fs" and "i < length Vs"
  shows "\<not> is_Interface B" and "fs ! i = derived B i" and "loadable B (Vs ! i)"
    and "length fs = length Vs"
  using assms by (simp_all add: Fields_Inr)

lemma Fields_set_offset:
  assumes "Fields B Values u0 = Inr fs" and "f \<in> set fs"
  shows "set_offset f = offsetof_buf B"
  using assms by (auto simp: Fields_Inr derived_def)

lemma Fields_inline_only_for_arrays:
  assumes "Fields B Values u0 = Inr fs" and "f \<in> set fs"
  shows "any f \<longleftrightarrow> \<not> is_Array B"
  using assms by (auto simp: Fields_Inr derived_def)

lemma Fields_Float:
  "Fields (Array 8 Uint8) [Float32, Float64] (zero_Union (Array 8 Uint8)) =
     Inr [\<lparr>tag = 0, set_offset = 3, any = False\<rparr>, \<lparr>tag = 1, set_offset = 3, any = False\<rparr>]"
  by (simp add: Fields_def values_def TypeOf_zero_def load_def zero_Field_def MaxInt32_def
      offsetof_buf_bytes)

lemma Fields_Int64:
  "Fields Int64 [Int32] (zero_Union Int64) = Inr [\<lparr>tag = 0, set_offset = 8, any = True\<rparr>]"
  by (simp add: Fields_def values_def TypeOf_zero_def load_def zero_Field_def MaxInt32_def
      offsetof_buf_eq align_up_def)

lemma Fields_replicate_Bool:
  assumes "k \<le> 2147483648"
  shows "Fields (Array 4 Uint8) (replicate k Bool) u =
           Inr (map (derived (Array 4 Uint8)) [0 ..< k])"
  using assms by (simp add: Fields_Inr loadable_bytes MaxInt32_def)

lemma tag_derived_65536: "tag (derived B 65536) = tag (derived B 0)"
  by (simp add: derived_def)

lemma tags_in_declaration_order:
  assumes "Fields B Values u0 = Inr fs" and "length Values \<le> 65536" and "i < length Values"
  shows "unat (tag (fs ! i)) = i"
proof -
  from assms(1,3) have "tag (fs ! i) = word_of_nat i"
    by (simp add: Fields_nth derived_def)
  moreover have "i < 65536" using assms(2,3) by simp
  ultimately show ?thesis by (simp add: unat_of_nat)
qed

lemma tags_distinct:
  assumes "Fields B Values u0 = Inr fs" and "length Values \<le> 65536"
    and "i < length Values" and "j < length Values" and "i \<noteq> j"
  shows "tag (fs ! i) \<noteq> tag (fs ! j)"
  using tags_in_declaration_order [OF assms(1,2,3)] tags_in_declaration_order [OF assms(1,2,4)]
    assms(5) by auto

lemma sint_tag:
  assumes "i < 65536"
  shows "sint (word_of_nat i :: 16 word) = (if i < 32768 then int i else int i - 65536)"
proof -
  have "sint (word_of_nat i :: 16 word) = signed_take_bit 15 (int i)"
    by (simp add: sint_uint signed_take_bit_take_bit unsigned_of_nat of_nat_take_bit [symmetric]
        flip: take_bit_of_nat)
  also have "\<dots> = (int i + 32768) mod 65536 - 32768"
    by (simp add: signed_take_bit_eq_take_bit_shift take_bit_eq_mod)
  also have "\<dots> = (if i < 32768 then int i else int i - 65536)"
  proof (cases "i < 32768")
    case True
    then have "(int i + 32768) mod 65536 = int i + 32768" by simp
    with True show ?thesis by simp
  next
    case False
    have e: "int i + 32768 = (int i - 32768) + 65536" by simp
    have "(int i + 32768) mod 65536 = (int i - 32768) mod 65536"
      unfolding e by (rule mod_add_self2)
    also have "\<dots> = int i - 32768" using False assms by simp
    finally show ?thesis using False by simp
  qed
  finally show ?thesis .
qed


section \<open>Reading and writing memory\<close>

lemma length_fetch: "length (fetch mem off n) = n"
  by (simp add: fetch_def)

lemma fetch_nth: "k < n \<Longrightarrow> fetch mem off n ! k = mem (off + k)"
  by (simp add: fetch_def)

lemma fetch_split: "fetch mem off (a + b) = fetch mem off a @ fetch mem (off + a) b"
  by (rule nth_equalityI) (auto simp: length_fetch fetch_nth nth_append add.assoc)

lemma length_peek: "length (peek var m off n) = n"
  by (simp add: peek_def length_fetch)

lemma peek_nth: "k < n \<Longrightarrow> peek var m off n ! k =
    (if off + k < length var then var ! (off + k) else m (off + k - length var))"
  by (simp add: peek_def fetch_nth flat_def)

lemma unat_byte_of_nat: "n < 256 \<Longrightarrow> unat (word_of_nat n :: byte) = n"
  by (simp add: unat_of_nat)

lemma rd16_le16: "rd16 (le16 w @ bs) = w"
proof -
  have "unat w < 65536" using unsigned_less [of w, where ?'a = nat] by simp
  then have "unat w div 256 < 256" by simp
  then have "unat (word_of_nat (unat w div 256) :: byte) = unat w div 256"
    by (rule unat_byte_of_nat)
  moreover have "unat (word_of_nat (unat w mod 256) :: byte) = unat w mod 256"
    by (rule unat_byte_of_nat) simp
  ultimately show ?thesis by (simp add: rd16_def le16_def)
qed

lemma length_le16: "length (le16 w) = 2"
  by (simp add: le16_def)

text \<open>
  The memory of \<^verbatim>\<open>New\<close> after its two writes, for a descriptor with an offset of 3 or more:
  the tag is at offset 0, the flag at offset 2 is 0, and the value is at the offset of the
  descriptor.
\<close>

lemma stored_tag:
  assumes "2 \<le> off"
  shows "fetch (store (store mem 0 (le16 t)) off bs) 0 2 = le16 t"
  using assms
  by (intro nth_equalityI) (auto simp: length_fetch fetch_nth store_def length_le16)

lemma stored_flag:
  assumes "3 \<le> off" and "2 < length var" and "var ! 2 = 0"
  shows "fetch (store (store (flat var beyond) 0 (le16 t)) off bs) 2 1 = [0]"
  using assms
  by (intro nth_equalityI) (auto simp: length_fetch fetch_nth store_def length_le16 flat_def)

lemma stored_value:
  assumes "3 \<le> off" and "off - 3 + length bs \<le> n"
  shows "take (length bs) (drop (off - 3) (fetch (store mem off bs) 3 n)) = bs"
  using assms
  by (intro nth_equalityI) (auto simp: length_fetch fetch_nth store_def)

lemma peek_union_bytes:
  assumes "3 \<le> off" and "off - 3 + n \<le> length rs"
  shows "peek (union_bytes u rs) m off n = take n (drop (off - 3) rs)"
  using assms
  by (intro nth_equalityI)
     (auto simp: length_peek peek_nth union_bytes_def length_le16 nth_append)

section \<open>The accessors on the descriptors of a derivation\<close>

text \<open>
  With a descriptor for inline storage, \<^verbatim>\<open>New\<close> returns a union value with the tag of the
  descriptor, the flag 0 and the value at the offset of the descriptor, and \<^verbatim>\<open>Lookup\<close>
  compares the tags and reads the bytes at that offset.
\<close>

lemma New_inline_general:
  assumes "3 \<le> set_offset f" and "\<not> any f" and "\<not> is_Interface B"
  shows "New B V f (Raw bs) m =
           Inr \<lparr>union_tag = tag f, union_any = False,
                buf = Inline (fetch (store (store (flat (replicate (sizeof (UnionMethods_type V)) 0) m)
                                0 (le16 (tag f))) (set_offset f) bs) 3 (rest_len B))\<rparr>"
proof -
  define var where "var = replicate (sizeof (UnionMethods_type V)) (0::byte)"
  define mem where "mem = store (store (flat var m) 0 (le16 (tag f))) (set_offset f) bs"
  have L: "2 < length var" using sizeof_UnionMethods_ge [of V] by (simp add: var_def)
  then have v2: "var ! 2 = 0" by (simp add: var_def)
  have t: "fetch mem 0 2 = le16 (tag f)"
    unfolding mem_def using assms(1) by (intro stored_tag) simp
  have a: "fetch mem 2 1 = [0]"
    unfolding mem_def using assms(1) L v2 by (rule stored_flag)
  have "as_Union B mem =
          \<lparr>union_tag = tag f, union_any = False, buf = Inline (fetch mem 3 (rest_len B))\<rparr>"
    unfolding as_Union_def t a using rd16_le16 [of "tag f" "[]"] by simp
  then show ?thesis
    using assms by (simp add: New_def Let_def var_def [symmetric] mem_def [symmetric])
qed

lemma New_inline:
  assumes f: "set_offset f = 3" "\<not> any f" and bs: "length bs = sizeof V" and n: "sizeof V \<le> n"
  shows "\<exists>rest. length rest = n - sizeof V \<and>
           New (Array n Uint8) V f (Raw bs) m =
             Inr \<lparr>union_tag = tag f, union_any = False, buf = Inline (bs @ rest)\<rparr>"
proof -
  define mem where "mem = store (store (flat (replicate (sizeof (UnionMethods_type V)) 0) m)
                                0 (le16 (tag f))) 3 bs"
  define rest where "rest = fetch mem (3 + sizeof V) (n - sizeof V)"
  have "fetch mem 3 (sizeof V) = bs"
    using stored_value [of 3 bs "sizeof V" "store (flat (replicate (sizeof (UnionMethods_type V)) 0) m) 0 (le16 (tag f))"]
      bs
    by (simp add: mem_def length_fetch)
  moreover have "fetch mem 3 n = fetch mem 3 (sizeof V) @ rest"
    using n fetch_split [of mem 3 "sizeof V" "n - sizeof V"] by (simp add: rest_def)
  ultimately have "fetch mem 3 n = bs @ rest" by simp
  moreover have "New (Array n Uint8) V f (Raw bs) m =
           Inr \<lparr>union_tag = tag f, union_any = False, buf = Inline (fetch mem 3 n)\<rparr>"
    using New_inline_general [of f "Array n Uint8" V bs m] f
    by (simp add: rest_len_bytes mem_def)
  moreover have "length rest = n - sizeof V" by (simp add: rest_def length_fetch)
  ultimately show ?thesis by auto
qed

lemma Lookup_inline_general:
  assumes "3 \<le> set_offset f" and "\<not> any f" and "\<not> is_Interface V"
    and "set_offset f - 3 + sizeof V \<le> length rs" and "buf u = Inline rs"
  shows "Lookup V f u m =
           Inr (if union_tag u = tag f
                then (Raw (take (sizeof V) (drop (set_offset f - 3) rs)), True)
                else (zero V, False))"
  using assms by (simp add: Lookup_def peek_union_bytes)

lemma Lookup_inline:
  assumes f: "set_offset f = 3" "\<not> any f" and V: "\<not> is_Interface V" "sizeof V \<le> length bs"
    and u: "buf u = Inline bs"
  shows "Lookup V f u m =
           Inr (if union_tag u = tag f then (Raw (take (sizeof V) bs), True) else (zero V, False))"
  using Lookup_inline_general [of f V bs u m] assms by simp

lemma Lookup_mismatch:
  assumes "set_offset f \<noteq> 0" and "union_tag u \<noteq> tag f"
  shows "Lookup V f u m = Inr (zero V, False)"
  using assms by (simp add: Lookup_def)

lemma has_type_Raw:
  assumes "has_type V v" and "\<not> is_Interface V"
  obtains bs where "v = Raw bs" and "length bs = sizeof V"
proof (cases v)
  case (Raw bs)
  with assms that show ?thesis by simp
next
  case (Ifc d)
  with assms show ?thesis by (cases d) auto
qed

text \<open>
  \<^verbatim>\<open>New\<close> with a descriptor of a derivation returns a union value of the union type with the
  tag and the flag of the descriptor; with inline storage the value is in its buffer.
\<close>

lemma New_derived:
  assumes "Fields B Values u0 = Inr fs" and "i < length Values" and "has_type (Values ! i) v"
  obtains u where "New B (Values ! i) (fs ! i) v stack = Inr u"
    and "union_tag u = tag (fs ! i)" and "union_any u = any (fs ! i)" and "valid_Union B u"
    and "is_Array B \<longrightarrow>
           (\<exists>bs rs. v = Raw bs \<and> buf u = Inline rs \<and>
              take (sizeof (Values ! i)) (drop (offsetof_buf B - 3) rs) = bs)"
proof (cases "is_Array B")
  case True
  let ?V = "Values ! i" and ?f = "fs ! i"
  from assms(1,2) have B: "\<not> is_Interface B" and f: "?f = derived B i"
    and l: "loadable B ?V"
    by (rule Fields_nth)+
  from l True have V: "\<not> is_Interface ?V" "sizeof ?V \<le> sizeof B" by (simp_all add: loadable_def)
  from assms(3) V(1) obtain bs where v: "v = Raw bs" and bs: "length bs = sizeof ?V"
    by (rule has_type_Raw)
  have ff: "3 \<le> set_offset ?f" "\<not> any ?f" "set_offset ?f = offsetof_buf B"
    using True offsetof_buf_ge [of B] by (simp_all add: f derived_def)
  define rs where "rs = fetch (store (store (flat (replicate (sizeof (UnionMethods_type ?V)) 0) stack)
                                0 (le16 (tag ?f))) (set_offset ?f) bs) 3 (rest_len B)"
  define u where "u = \<lparr>union_tag = tag ?f, union_any = False, buf = Inline rs\<rparr>"
  have new: "New B ?V ?f v stack = Inr u"
    unfolding v u_def rs_def by (rule New_inline_general [OF ff(1,2) B])
  have "offsetof_buf B - 3 + length bs \<le> rest_len B"
    using V(2) bs rest_len_ge [of B] by simp
  then have "take (length bs) (drop (offsetof_buf B - 3) rs) = bs"
    unfolding rs_def ff(3) using offsetof_buf_ge [of B] by (intro stored_value) simp_all
  then have val: "take (sizeof ?V) (drop (offsetof_buf B - 3) rs) = bs" by (simp add: bs)
  have valid: "valid_Union B u"
    using B by (simp add: valid_Union_def u_def rs_def length_fetch)
  show ?thesis
    using that [of u] new ff(2) v val valid by (simp add: u_def)
next
  case False
  let ?V = "Values ! i" and ?f = "fs ! i"
  from assms(1,2) have B: "\<not> is_Interface B" and f: "?f = derived B i"
    by (rule Fields_nth)+
  from B have B': "B \<noteq> Interface []" by auto
  have ff: "set_offset ?f \<noteq> 0" "any ?f"
    using False offsetof_buf_ge [of B] by (simp_all add: f derived_def)
  define u where "u = \<lparr>union_tag = tag ?f, union_any = True,
                        buf = Words (to_any ?V v) (rest_len B)\<rparr>"
  have "New B ?V ?f v stack = Inr u"
    using ff B B' by (simp add: New_def u_def)
  moreover have "valid_Union B u" using B False by (simp add: valid_Union_def u_def)
  ultimately show ?thesis using that [of u] ff(2) False by (simp add: u_def)
qed

text \<open>
  \<^verbatim>\<open>Lookup\<close> with an inline descriptor of a derivation, on any union value of the union type.
\<close>

lemma Lookup_derived:
  assumes "Fields B Values u0 = Inr fs" and "i < length Values" and "is_Array B"
    and "valid_Union B u"
  obtains rs where "buf u = Inline rs" and
    "Lookup (Values ! i) (fs ! i) u heap =
       Inr (if union_tag u = tag (fs ! i)
            then (Raw (take (sizeof (Values ! i)) (drop (offsetof_buf B - 3) rs)), True)
            else (zero (Values ! i), False))"
proof -
  let ?V = "Values ! i" and ?f = "fs ! i"
  from assms(1,2) have B: "\<not> is_Interface B" and f: "?f = derived B i"
    and l: "loadable B ?V"
    by (rule Fields_nth)+
  from l assms(3) have V: "\<not> is_Interface ?V" "sizeof ?V \<le> sizeof B"
    by (simp_all add: loadable_def)
  have ff: "3 \<le> set_offset ?f" "\<not> any ?f" "set_offset ?f = offsetof_buf B"
    using assms(3) offsetof_buf_ge [of B] by (simp_all add: f derived_def)
  from assms(3,4) B obtain rs where rs: "buf u = Inline rs" "length rs = rest_len B"
    by (cases "buf u") (auto simp: valid_Union_def)
  have "set_offset ?f - 3 + sizeof ?V \<le> length rs"
    using V(2) rs(2) rest_len_ge [of B] by (simp add: ff(3))
  from Lookup_inline_general [OF ff(1,2) V(1) this rs(1), of heap] rs(1) that
  show ?thesis by (simp add: ff(3))
qed

lemma roundtrip_inline:
  assumes "Fields B Values u0 = Inr fs" and "i < length Values" and "has_type (Values ! i) v"
    and "is_Array B"
  shows "\<exists>u. New B (Values ! i) (fs ! i) v stack = Inr u \<and>
             Get (Values ! i) (fs ! i) u heap = Inr v"
proof -
  from assms(1,2,3) obtain u where new: "New B (Values ! i) (fs ! i) v stack = Inr u"
    and t: "union_tag u = tag (fs ! i)" and valid: "valid_Union B u"
    and "is_Array B \<longrightarrow>
           (\<exists>bs rs. v = Raw bs \<and> buf u = Inline rs \<and>
              take (sizeof (Values ! i)) (drop (offsetof_buf B - 3) rs) = bs)"
    by (rule New_derived)
  with assms(4) obtain bs rs where v: "v = Raw bs" and rs: "buf u = Inline rs"
    and val: "take (sizeof (Values ! i)) (drop (offsetof_buf B - 3) rs) = bs"
    by blast
  from assms(1,2,4) valid obtain rs' where "buf u = Inline rs'" and
    "Lookup (Values ! i) (fs ! i) u heap =
       Inr (if union_tag u = tag (fs ! i)
            then (Raw (take (sizeof (Values ! i)) (drop (offsetof_buf B - 3) rs')), True)
            else (zero (Values ! i), False))"
    by (rule Lookup_derived)
  with rs val t v have "Lookup (Values ! i) (fs ! i) u heap = Inr (v, True)" by simp
  then have "Get (Values ! i) (fs ! i) u heap = Inr v" by (simp add: Get_def)
  with new show ?thesis by blast
qed

lemma Lookup_other_accessor:
  assumes "Fields B Values u0 = Inr fs" and "length Values \<le> 65536"
    and "i < length Values" and "j < length Values" and "i \<noteq> j"
    and "has_type (Values ! i) v" and "New B (Values ! i) (fs ! i) v stack = Inr u"
  shows "Lookup (Values ! j) (fs ! j) u heap = Inr (zero (Values ! j), False)"
proof -
  from assms(1,3,6) obtain w where "New B (Values ! i) (fs ! i) v stack = Inr w"
    and "union_tag w = tag (fs ! i)"
    by (rule New_derived)
  with assms(7) have "union_tag u = tag (fs ! i)" by simp
  then have "union_tag u \<noteq> tag (fs ! j)"
    using tags_distinct [OF assms(1,2,3,4,5)] by simp
  moreover have "set_offset (fs ! j) \<noteq> 0"
    using Fields_nth(2) [OF assms(1,4)] offsetof_buf_ge [of B] by (simp add: derived_def)
  ultimately show ?thesis by (rule Lookup_mismatch [rotated])
qed

lemma New_NotInitialized:
  "New B V f v stack = Inl (Panic NotInitialized) \<longleftrightarrow> set_offset f = 0"
  by (simp add: New_def Let_def split: govalue.splits)

lemma Lookup_NotInitialized:
  "Lookup V f u heap = Inl (Panic NotInitialized) \<longleftrightarrow> set_offset f = 0"
  by (simp add: Lookup_def split: storage.splits option.splits)

lemma Get_NotInitialized:
  "Get V f u heap = Inl (Panic NotInitialized) \<longleftrightarrow> set_offset f = 0"
proof (cases "Lookup V f u heap")
  case (Inl e)
  then show ?thesis using Lookup_NotInitialized [of V f u heap] by (simp add: Get_def)
next
  case (Inr r)
  then have "set_offset f \<noteq> 0" by (auto simp: Lookup_def split: if_splits)
  with Inr show ?thesis by (cases r) (simp add: Get_def)
qed

section \<open>The boxed branch\<close>

text \<open>
  With a boxed descriptor, \<^verbatim>\<open>Get\<close> returns what \<^verbatim>\<open>New\<close> was given when the buffer is \<^verbatim>\<open>any\<close>, or
  is no interface type and holds both pointers (it ends at offset 24 or later), except for
  the nil value of an interface type, where the type assertion panics. The derivation gives
  such descriptors only when the buffer is neither an interface type nor an array
  (\<open>Fields_Inr\<close>), and when the buffer then ends before offset 24, \<^verbatim>\<open>Get\<close> has no defined result.
\<close>

lemma type_assert_to_any:
  assumes "has_type V v" and "v \<noteq> Ifc None"
  shows "type_assert V (to_any V v) = Some v"
proof (cases v)
  case (Raw bs)
  with assms(1) have "\<not> is_Interface V" by simp
  then have "type_assert V (Some (V, bs)) = Some (Raw bs)" by (cases V) simp_all
  with Raw show ?thesis by simp
next
  case (Ifc d)
  with assms(2) obtain dt bs where d: "d = Some (dt, bs)" by (cases d) auto
  with assms(1) Ifc have "V = Interface []" by simp
  with Ifc d show ?thesis by simp
qed

lemma boxed_roundtrip:
  assumes "set_offset f \<noteq> 0" and "any f" and "has_type V v" and "v \<noteq> Ifc None"
  shows "New (Interface []) V f v stack =
           Inr \<lparr>union_tag = tag f, union_any = True, buf = Boxed (to_any V v)\<rparr> \<and>
         Get V f \<lparr>union_tag = tag f, union_any = True, buf = Boxed (to_any V v)\<rparr> heap = Inr v"
  using assms(1,2) type_assert_to_any [OF assms(3,4)]
  by (simp add: New_def Lookup_def Get_def)

lemma boxed_nil_panics:
  assumes "set_offset f \<noteq> 0" and "any f"
  shows "Get V f \<lparr>union_tag = tag f, union_any = True, buf = Boxed (to_any V (Ifc None))\<rparr> heap =
           Inl (Panic TypeAssertion)"
  using assms by (simp add: Lookup_def Get_def)

lemma boxed_New_derived:
  assumes "Fields B Values u0 = Inr fs" and "i < length Values" and "\<not> is_Array B"
  shows "New B (Values ! i) (fs ! i) v stack =
           Inr \<lparr>union_tag = tag (fs ! i), union_any = True,
                buf = Words (to_any (Values ! i) v) (rest_len B)\<rparr>"
proof -
  from assms(1,2) have B: "\<not> is_Interface B" and f: "fs ! i = derived B i"
    by (rule Fields_nth)+
  from B have "B \<noteq> Interface []" by auto
  then show ?thesis
    using B assms(3) offsetof_buf_ge [of B] by (simp add: New_def f derived_def)
qed

lemma boxed_roundtrip_complete_pointers:
  assumes "Fields B Values u0 = Inr fs" and "i < length Values" and "\<not> is_Array B"
    and "has_type (Values ! i) v" and "21 \<le> rest_len B"
  shows "\<exists>u. New B (Values ! i) (fs ! i) v stack = Inr u \<and>
             Get (Values ! i) (fs ! i) u heap = Inr v"
proof -
  from assms(1,2) have f: "fs ! i = derived B i" and l: "loadable B (Values ! i)"
    by (rule Fields_nth)+
  from l assms(4) have "v \<noteq> Ifc None" by (auto simp: loadable_def)
  from type_assert_to_any [OF assms(4) this] assms(3,5) offsetof_buf_ge [of B]
  have "Get (Values ! i) (fs ! i)
          \<lparr>union_tag = tag (fs ! i), union_any = True,
           buf = Words (to_any (Values ! i) v) (rest_len B)\<rparr> heap = Inr v"
    by (simp add: Get_def Lookup_def f derived_def)
  with boxed_New_derived [OF assms(1,2,3)] show ?thesis by simp
qed

lemma boxed_Get_cut_pointers:
  assumes "Fields B Values u0 = Inr fs" and "i < length Values" and "\<not> is_Array B"
    and "rest_len B < 21"
  shows "\<exists>u. New B (Values ! i) (fs ! i) v stack = Inr u \<and>
             Get (Values ! i) (fs ! i) u heap = Inl Undefined"
proof -
  from assms(1,2) have f: "fs ! i = derived B i" by (rule Fields_nth)
  from assms(3,4) offsetof_buf_ge [of B]
  have "Get (Values ! i) (fs ! i)
          \<lparr>union_tag = tag (fs ! i), union_any = True,
           buf = Words (to_any (Values ! i) v) (rest_len B)\<rparr> heap = Inl Undefined"
    by (simp add: Get_def Lookup_def f derived_def)
  with boxed_New_derived [OF assms(1,2,3)] show ?thesis by simp
qed

section \<open>The claims\<close>

text \<open>
  Claim C1, at the union type \<^verbatim>\<open>tagged.Union[int64, struct{ A tagged.As[U, int32] }]\<close> and the
  value 7. \<^verbatim>\<open>Fields\<close> returns a boxed descriptor with the offset 8. \<^verbatim>\<open>New\<close> returns a union value
  of 16 bytes, copied out of a variable of 24 bytes that holds the two pointers of the
  boxed value from offset 8 on, so the second pointer is lost; \<^verbatim>\<open>Get\<close> takes the 16 bytes
  from offset 8 of this union value for the two pointers and has no defined result. It
  does not return 7. The same holds for every union type whose buffer is neither an array
  nor an interface type and ends before offset 24 (\<open>boxed_Get_cut_pointers\<close>); \<^verbatim>\<open>Get\<close> does
  return what \<^verbatim>\<open>New\<close> was given with every array as buffer (\<open>roundtrip_inline\<close>) and with
  the other buffers that hold both pointers (\<open>boxed_roundtrip_complete_pointers\<close>).
\<close>

theorem Get_New_boxed_in_Int64_buffer:
  "Fields Int64 [Int32] (zero_Union Int64) = Inr [\<lparr>tag = 0, set_offset = 8, any = True\<rparr>] \<and>
   has_type Int32 (Raw [7, 0, 0, 0]) \<and>
   New Int64 Int32 \<lparr>tag = 0, set_offset = 8, any = True\<rparr> (Raw [7, 0, 0, 0]) zero_memory =
     Inr \<lparr>union_tag = 0, union_any = True, buf = Words (Some (Int32, [7, 0, 0, 0])) 13\<rparr> \<and>
   Get Int32 \<lparr>tag = 0, set_offset = 8, any = True\<rparr>
     \<lparr>union_tag = 0, union_any = True, buf = Words (Some (Int32, [7, 0, 0, 0])) 13\<rparr> zero_memory =
     Inl Undefined"
proof -
  have "rest_len Int64 = 13" by (simp add: rest_len_def offsetof_buf_eq align_up_def)
  then show ?thesis
    using Fields_Int64 by (simp add: New_def Get_def Lookup_def)
qed

text \<open>
  Claim C2, at the union type with 65537 alternatives of type \<^verbatim>\<open>bool\<close> over \<^verbatim>\<open>[4]byte\<close>. A union
  value built by the first accessor from \<^verbatim>\<open>true\<close> is found by \<^verbatim>\<open>Lookup\<close> of the last
  accessor, which returns \<^verbatim>\<open>true\<close> and not the zero value. The rest of the claim holds:
  \<^verbatim>\<open>Lookup\<close> of a derived accessor finds exactly the union values with its tag and returns
  the zero value otherwise (\<open>Lookup_derived\<close>, \<open>Lookup_mismatch\<close>), and in a union with at most
  65536 alternatives no other accessor finds a value (\<open>Lookup_other_accessor\<close>).
\<close>

theorem Lookup_through_colliding_accessor:
  "\<not> isl (Fields (Array 4 Uint8) (replicate 65537 Bool) (zero_Union (Array 4 Uint8))) \<and>
   \<not> isl (New (Array 4 Uint8) Bool
            (projr (Fields (Array 4 Uint8) (replicate 65537 Bool) (zero_Union (Array 4 Uint8))) ! 0)
            (Raw [1]) zero_memory) \<and>
   Lookup Bool
     (projr (Fields (Array 4 Uint8) (replicate 65537 Bool) (zero_Union (Array 4 Uint8))) ! 65536)
     (projr (New (Array 4 Uint8) Bool
        (projr (Fields (Array 4 Uint8) (replicate 65537 Bool) (zero_Union (Array 4 Uint8))) ! 0)
        (Raw [1]) zero_memory))
     zero_memory = Inr (Raw [1], True) \<and>
   zero Bool = Raw [0]"
proof -
  have fs: "Fields (Array 4 Uint8) (replicate 65537 Bool) (zero_Union (Array 4 Uint8)) =
              Inr (map (derived (Array 4 Uint8)) [0 ..< 65537])"
    by (rule Fields_replicate_Bool) simp
  have f0: "map (derived (Array 4 Uint8)) [0 ..< 65537] ! 0 = \<lparr>tag = 0, set_offset = 3, any = False\<rparr>"
    by (simp add: derived_bytes)
  have f1: "map (derived (Array 4 Uint8)) [0 ..< 65537] ! 65536 =
              \<lparr>tag = 0, set_offset = 3, any = False\<rparr>"
    by (simp add: derived_bytes)
  obtain rest where new: "New (Array 4 Uint8) Bool \<lparr>tag = 0, set_offset = 3, any = False\<rparr> (Raw [1])
        zero_memory = Inr \<lparr>union_tag = 0, union_any = False, buf = Inline ([1] @ rest)\<rparr>"
    using New_inline [of "\<lparr>tag = 0, set_offset = 3, any = False\<rparr>" "[1]" Bool 4 zero_memory]
    by auto
  have "Lookup Bool \<lparr>tag = 0, set_offset = 3, any = False\<rparr>
          \<lparr>union_tag = 0, union_any = False, buf = Inline ([1] @ rest)\<rparr> zero_memory =
        Inr (Raw [1], True)"
    using Lookup_inline [of "\<lparr>tag = 0, set_offset = 3, any = False\<rparr>" Bool "[1] @ rest"
        "\<lparr>union_tag = 0, union_any = False, buf = Inline ([1] @ rest)\<rparr>" zero_memory]
    by simp
  then show ?thesis
    unfolding fs sum.sel f0 f1 new by (simp add: zero_def)
qed



text \<open>
  Claim C4, at the buffer \<^verbatim>\<open>any\<close>. \<^verbatim>\<open>Fields\<close> never returns for a union type with the buffer
  \<^verbatim>\<open>any\<close>, whatever its alternatives are: \<^verbatim>\<open>reflect.TypeOf(buffer)\<close> is the nil type, and the
  call of \<^verbatim>\<open>Kind\<close> on it panics before the first alternative is loaded. (With a buffer that
  is neither an interface type nor an array, \<^verbatim>\<open>Fields\<close> does select boxed storage for every
  alternative that is no interface type: \<open>Fields_Inr\<close>.)
\<close>

theorem Fields_any_buffer_panics: "Fields (Interface []) Values u = Inl NilDereference"
  by (simp add: Fields_def values_def TypeOf_zero_def)

text \<open>
  Claim C5, at 65536 and at 65537 alternatives of type \<^verbatim>\<open>bool\<close> over \<^verbatim>\<open>[4]byte\<close>. \<^verbatim>\<open>Fields\<close>
  returns for both, and with 65537 alternatives the last alternative has the tag of the
  first one. The rest of the claim holds: up to 65536 alternatives the tags are distinct and
  are the indices, read as unsigned 16-bit numbers (\<open>tags_in_declaration_order\<close>,
  \<open>tags_distinct\<close>); as \<^verbatim>\<open>int16\<close> the tags from index 32768 on are negative (\<open>sint_tag\<close>).
\<close>

theorem discriminants_collide_beyond_65536:
  "\<not> isl (Fields (Array 4 Uint8) (replicate 65536 Bool) (zero_Union (Array 4 Uint8))) \<and>
   \<not> isl (Fields (Array 4 Uint8) (replicate 65537 Bool) (zero_Union (Array 4 Uint8))) \<and>
   tag (projr (Fields (Array 4 Uint8) (replicate 65537 Bool) (zero_Union (Array 4 Uint8))) ! 65536) =
   tag (projr (Fields (Array 4 Uint8) (replicate 65537 Bool) (zero_Union (Array 4 Uint8))) ! 0)"
  by (simp add: Fields_replicate_Bool tag_derived_65536)

text \<open>
  Claim C6. For a union type with the buffer \<^verbatim>\<open>[n]byte\<close>, \<^verbatim>\<open>Fields\<close> panics when some alternative
  transitively contains a pointer-like field or is larger than \<open>n\<close> bytes. With the
  accessors of a successful derivation, \<^verbatim>\<open>New\<close> returns a union value for every value of the
  type of the alternative, \<^verbatim>\<open>Lookup\<close> returns for every union value, and finds the
  alternative exactly when the tags are equal, and \<^verbatim>\<open>Get\<close> fails only for a wrong tag: nothing
  but the discriminant is checked at use.
\<close>

theorem declaration_faults:
  "((\<exists>V\<in>set Values. contains_pointer_like V \<or> n < sizeof V) \<longrightarrow>
      (\<exists>p. Fields (Array n Uint8) Values u0 = Inl p)) \<and>
   (Fields (Array n' Uint8) Values' u0' = Inr fs \<and> i < length Values' \<and>
    has_type (Values' ! i) v \<and> valid_Union (Array n' Uint8) u \<longrightarrow>
      (\<exists>w. New (Array n' Uint8) (Values' ! i) (fs ! i) v stack = Inr w) \<and>
      (\<exists>x. Lookup (Values' ! i) (fs ! i) u heap = Inr (x, union_tag u = tag (fs ! i))) \<and>
      (union_tag u = tag (fs ! i) \<longrightarrow> (\<exists>x. Get (Values' ! i) (fs ! i) u heap = Inr x)) \<and>
      (union_tag u \<noteq> tag (fs ! i) \<longrightarrow>
         Get (Values' ! i) (fs ! i) u heap = Inl (Panic WrongTag)))"
proof (intro conjI impI)
  assume bad: "\<exists>V\<in>set Values. contains_pointer_like V \<or> n < sizeof V"
  show "\<exists>p. Fields (Array n Uint8) Values u0 = Inl p"
  proof (cases "Fields (Array n Uint8) Values u0")
    case (Inl p)
    then show ?thesis by blast
  next
    case (Inr gs)
    then have "\<forall>V\<in>set Values. \<not> hasPointers V \<and> sizeof V \<le> n"
      by (simp add: Fields_Inr loadable_bytes)
    with bad show ?thesis by (auto simp: hasPointers_iff)
  qed
next
  assume h: "Fields (Array n' Uint8) Values' u0' = Inr fs \<and> i < length Values' \<and>
    has_type (Values' ! i) v \<and> valid_Union (Array n' Uint8) u"
  then have a: "Fields (Array n' Uint8) Values' u0' = Inr fs" and b: "i < length Values'"
    and c: "has_type (Values' ! i) v" and d: "valid_Union (Array n' Uint8) u"
    by simp_all
  from a b c show "\<exists>w. New (Array n' Uint8) (Values' ! i) (fs ! i) v stack = Inr w"
    by (rule New_derived) blast
  have "is_Array (Array n' Uint8)" by simp
  with a b obtain rs where
    lk: "Lookup (Values' ! i) (fs ! i) u heap =
       Inr (if union_tag u = tag (fs ! i)
            then (Raw (take (sizeof (Values' ! i)) (drop (offsetof_buf (Array n' Uint8) - 3) rs)),
                  True)
            else (zero (Values' ! i), False))"
    using d by (rule Lookup_derived)
  show "\<exists>x. Lookup (Values' ! i) (fs ! i) u heap = Inr (x, union_tag u = tag (fs ! i))"
    unfolding lk by auto
  show "\<exists>x. Get (Values' ! i) (fs ! i) u heap = Inr x" if "union_tag u = tag (fs ! i)"
    using that by (simp add: Get_def lk)
  show "Get (Values' ! i) (fs ! i) u heap = Inl (Panic WrongTag)"
    if "union_tag u \<noteq> tag (fs ! i)"
    using that by (simp add: Get_def lk)
qed

theorem declaration_faults_witness:
  "contains_pointer_like Slice \<and>
   Slice \<in> set [Float32, Slice] \<and>
   isl (Fields (Array 4 Uint8) [Float32, Slice] (zero_Union (Array 4 Uint8))) \<and>
   Fields (Array 8 Uint8) [Float32, Float64] (zero_Union (Array 8 Uint8)) =
     Inr [\<lparr>tag = 0, set_offset = 3, any = False\<rparr>, \<lparr>tag = 1, set_offset = 3, any = False\<rparr>] \<and>
   (0::nat) < length [Float32, Float64] \<and>
   has_type ([Float32, Float64] ! 0) (Raw [219, 15, 73, 64]) \<and>
   valid_Union (Array 8 Uint8) (zero_Union (Array 8 Uint8)) \<and>
   \<not> isl (New (Array 8 Uint8) ([Float32, Float64] ! 0)
          ([\<lparr>tag = 0, set_offset = 3, any = False\<rparr>, \<lparr>tag = 1, set_offset = 3, any = False\<rparr>] ! 0)
          (Raw [219, 15, 73, 64]) zero_memory)"
proof -
  have h0: "contains_pointer_like Slice" by (simp add: contains_pointer_like.itself)
  then have h1: "\<exists>V\<in>set [Float32, Slice]. contains_pointer_like V \<or> 4 < sizeof V" by simp
  have h2: "(0::nat) < length [Float32, Float64]" by simp
  have h3: "has_type ([Float32, Float64] ! 0) (Raw [219, 15, 73, 64])" by simp
  have h4: "valid_Union (Array 8 Uint8) (zero_Union (Array 8 Uint8))"
    by (simp add: valid_Union_def zero_Union_def zero_storage_def)
  have "isl (Fields (Array 4 Uint8) [Float32, Slice] (zero_Union (Array 4 Uint8))) \<and>
        \<not> isl (New (Array 8 Uint8) ([Float32, Float64] ! 0)
          ([\<lparr>tag = 0, set_offset = 3, any = False\<rparr>, \<lparr>tag = 1, set_offset = 3, any = False\<rparr>] ! 0)
          (Raw [219, 15, 73, 64]) zero_memory)"
    using h1 Fields_Float h2 h3 h4
      declaration_faults [of "[Float32, Slice]" 4 "zero_Union (Array 4 Uint8)" 8
        "[Float32, Float64]" "zero_Union (Array 8 Uint8)"
        "[\<lparr>tag = 0, set_offset = 3, any = False\<rparr>, \<lparr>tag = 1, set_offset = 3, any = False\<rparr>]"
        0 "Raw [219, 15, 73, 64]" "zero_Union (Array 8 Uint8)" zero_memory zero_memory]
    by (metis sum.disc(1) sum.disc(2))
  with h0 Fields_Float h2 h3 h4 show ?thesis by simp
qed

text \<open>
  Claim C7. With the zero-valued accessor, \<^verbatim>\<open>New\<close>, \<^verbatim>\<open>Lookup\<close> and \<^verbatim>\<open>Get\<close> each panic with
  "tagged.Field must be initialized before use", whatever the value or the union value
  is, and this message is not the one of \<^verbatim>\<open>Get\<close> for a wrong tag.
\<close>

theorem uninitialized_accessor_panics:
  "New B V zero_Field v stack = Inl (Panic NotInitialized) \<and>
   Lookup V zero_Field u heap = Inl (Panic NotInitialized) \<and>
   Get V zero_Field u heap = Inl (Panic NotInitialized) \<and>
   message NotInitialized \<noteq> message WrongTag"
  by (simp add: New_def Lookup_def Get_def zero_Field_def)

text \<open>
  Claim C8. For a union type with a byte buffer, at least one alternative and a successful
  derivation, the zero-valued union value has the discriminant 0, \<^verbatim>\<open>FieldOf\<close> of it is the
  \<open>Field\<close> of the first alternative, and \<^verbatim>\<open>Lookup\<close> of the first alternative finds it (with
  the zero value of the alternative).
\<close>

theorem zero_Union_is_first_alternative:
  assumes "Fields (Array n Uint8) (V # Vs) u0 = Inr fs"
  shows "union_tag (zero_Union (Array n Uint8)) = 0 \<and>
         FieldOf (Array n Uint8) (zero_Union (Array n Uint8)) = fs ! 0 \<and>
         Lookup V (fs ! 0) (zero_Union (Array n Uint8)) heap = Inr (zero V, True)"
proof -
  have "0 < length (V # Vs)" by simp
  with assms have "fs ! 0 = derived (Array n Uint8) 0"
    and "loadable (Array n Uint8) ((V # Vs) ! 0)"
    by (rule Fields_nth)+
  then have f: "fs ! 0 = \<lparr>tag = 0, set_offset = 3, any = False\<rparr>"
    and V: "\<not> is_Interface V" "sizeof V \<le> n"
    by (simp_all add: derived_bytes loadable_bytes)
  have z: "zero_Union (Array n Uint8) =
             \<lparr>union_tag = 0, union_any = False, buf = Inline (replicate n 0)\<rparr>"
    by (simp add: zero_Union_def zero_storage_def rest_len_bytes)
  have 1: "FieldOf (Array n Uint8) (zero_Union (Array n Uint8)) = fs ! 0"
    by (simp add: FieldOf_def getTag_def z f offsetof_buf_bytes)
  have "Lookup V (fs ! 0) (zero_Union (Array n Uint8)) heap =
          Inr (Raw (take (sizeof V) (replicate n 0)), True)"
    using Lookup_inline [of "fs ! 0" V "replicate n 0" "zero_Union (Array n Uint8)" heap] V
    by (simp add: f z)
  then have 2: "Lookup V (fs ! 0) (zero_Union (Array n Uint8)) heap = Inr (zero V, True)"
    using V by (simp add: zero_def min_def)
  show ?thesis using 1 2 by (simp add: z)
qed

theorem zero_Union_is_first_alternative_witness:
  "Fields (Array 8 Uint8) (Float32 # [Float64]) (zero_Union (Array 8 Uint8)) =
     Inr [\<lparr>tag = 0, set_offset = 3, any = False\<rparr>, \<lparr>tag = 1, set_offset = 3, any = False\<rparr>] \<and>
   union_tag (zero_Union (Array 8 Uint8)) = 0 \<and>
   FieldOf (Array 8 Uint8) (zero_Union (Array 8 Uint8)) =
     [\<lparr>tag = 0, set_offset = 3, any = False\<rparr>, \<lparr>tag = 1, set_offset = 3, any = False\<rparr>] ! 0 \<and>
   Lookup Float32
     ([\<lparr>tag = 0, set_offset = 3, any = False\<rparr>, \<lparr>tag = 1, set_offset = 3, any = False\<rparr>] ! 0)
     (zero_Union (Array 8 Uint8)) zero_memory = Inr (zero Float32, True)"
  using Fields_Float zero_Union_is_first_alternative [OF Fields_Float, of zero_memory]
  by blast

text \<open>
  Claim C9. When \<^verbatim>\<open>Fields\<close> succeeds on a value of a union type, \<^verbatim>\<open>Fields\<close> on any value of
  the same union type returns the same descriptors: \<^verbatim>\<open>values\<close> takes nothing but the type from
  its receiver, and \<^verbatim>\<open>load\<close> overwrites every field of a descriptor (\<open>load_overwrites\<close>).
\<close>

theorem Fields_idempotent:
  "Fields B Values u1 = Inr fs \<Longrightarrow> Fields B Values u2 = Inr fs"
  by (simp add: Fields_def values_def)

theorem Fields_idempotent_witness:
  "Fields (Array 8 Uint8) [Float32, Float64] (zero_Union (Array 8 Uint8)) =
     Inr [\<lparr>tag = 0, set_offset = 3, any = False\<rparr>, \<lparr>tag = 1, set_offset = 3, any = False\<rparr>] \<and>
   Fields (Array 8 Uint8) [Float32, Float64]
     \<lparr>union_tag = 1, union_any = False, buf = Inline [24, 45, 68, 84, 251, 33, 9, 64]\<rparr> =
     Inr [\<lparr>tag = 0, set_offset = 3, any = False\<rparr>, \<lparr>tag = 1, set_offset = 3, any = False\<rparr>]"
  using Fields_Float Fields_idempotent [OF Fields_Float] by blast

text \<open>
  Claim C10. The offset of the buffer in \<^verbatim>\<open>UnionMethods[Buf, Values]\<close> is positive for every
  buffer type, so every descriptor of a successful derivation has a nonzero offset; the
  zero-valued descriptor has the offset 0; and \<^verbatim>\<open>New\<close>, \<^verbatim>\<open>Lookup\<close> and \<^verbatim>\<open>Get\<close> raise the
  panic for an uninitialized descriptor exactly when the offset of the descriptor is 0.
\<close>

theorem offset_sentinel_sound:
  "0 < offsetof_buf b \<and>
   set_offset zero_Field = 0 \<and>
   (New B V f v stack = Inl (Panic NotInitialized)) = (set_offset f = 0) \<and>
   (Lookup V f u heap = Inl (Panic NotInitialized)) = (set_offset f = 0) \<and>
   (Get V f u heap = Inl (Panic NotInitialized)) = (set_offset f = 0) \<and>
   (Fields B Values u0 = Inr fs \<longrightarrow> (\<forall>g\<in>set fs. set_offset g \<noteq> 0))"
proof -
  have "0 < offsetof_buf b" using offsetof_buf_ge [of b] by simp
  moreover have "Fields B Values u0 = Inr fs \<longrightarrow> (\<forall>g\<in>set fs. set_offset g \<noteq> 0)"
    using offsetof_buf_ge [of B] by (auto dest: Fields_set_offset)
  ultimately show ?thesis
    by (simp add: New_NotInitialized Lookup_NotInitialized Get_NotInitialized zero_Field_def)
qed

theorem offset_sentinel_sound_witness:
  "Fields (Array 8 Uint8) [Float32, Float64] (zero_Union (Array 8 Uint8)) =
     Inr [\<lparr>tag = 0, set_offset = 3, any = False\<rparr>, \<lparr>tag = 1, set_offset = 3, any = False\<rparr>] \<and>
   set_offset \<lparr>tag = 0, set_offset = 3, any = False\<rparr> \<noteq> 0 \<and>
   set_offset \<lparr>tag = 1, set_offset = 3, any = False\<rparr> \<noteq> 0 \<and>
   0 < offsetof_buf (Array 8 Uint8) \<and>
   (New (Array 8 Uint8) Float32 zero_Field (Raw [219, 15, 73, 64]) zero_memory =
      Inl (Panic NotInitialized)) = (set_offset zero_Field = 0)"
  using Fields_Float
    offset_sentinel_sound [of "Array 8 Uint8" "Array 8 Uint8" Float32 zero_Field
      "Raw [219, 15, 73, 64]" zero_memory "zero_Union (Array 8 Uint8)" zero_memory
      "[Float32, Float64]" "zero_Union (Array 8 Uint8)"
      "[\<lparr>tag = 0, set_offset = 3, any = False\<rparr>, \<lparr>tag = 1, set_offset = 3, any = False\<rparr>]"]
  by simp

end
